theory Spec2Isabelle
  imports Main
begin

section \<open>Power states\<close>

text \<open>
  \<^verbatim>\<open>type powerState int\<close>: a power state is its integer code. The code only stores,
  compares and echoes these values, so the unbounded integers stand for Go's \<^verbatim>\<open>int\<close>;
  the one place where the machine range shows, \<^verbatim>\<open>strconv.Atoi\<close>, checks it explicitly.
\<close>

type_synonym powerState = int

definition powerStateUnknown :: powerState where "powerStateUnknown = 0"
definition powerStateOther :: powerState where "powerStateOther = 1"
definition powerStateOn :: powerState where "powerStateOn = 2"
definition powerStateSleepLight :: powerState where "powerStateSleepLight = 3"
definition powerStateSleepDeep :: powerState where "powerStateSleepDeep = 4"
definition powerStatePowerCycleOffSoft :: powerState where "powerStatePowerCycleOffSoft = 5"
definition powerStateOffHard :: powerState where "powerStateOffHard = 6"
definition powerStateHibernateOffSoft :: powerState where "powerStateHibernateOffSoft = 7"
definition powerStateOffSoft :: powerState where "powerStateOffSoft = 8"
definition powerStatePowerCycleOffHard :: powerState where "powerStatePowerCycleOffHard = 9"
definition powerStateMasterBusReset :: powerState where "powerStateMasterBusReset = 10"
definition powerStateDiagnosticInterruptNMI :: powerState where
  "powerStateDiagnosticInterruptNMI = 11"
definition powerStateOffSoftGraceful :: powerState where "powerStateOffSoftGraceful = 12"
definition powerStateOffHardGraceful :: powerState where "powerStateOffHardGraceful = 13"
definition powerStateMasterBusResetGraceful :: powerState where
  "powerStateMasterBusResetGraceful = 14"
definition powerStatePowerCycleOffSoftGraceful :: powerState where
  "powerStatePowerCycleOffSoftGraceful = 15"
definition powerStatePowerCycleOffHardGraceful :: powerState where
  "powerStatePowerCycleOffHardGraceful = 16"
definition powerStateDiagnosticInterruptInit :: powerState where
  "powerStateDiagnosticInterruptInit = 17"

record powerStatus =
  AvailableRequestedpowerStates :: "powerState list"
  powerState :: powerState
  RequestedpowerState :: powerState

section \<open>Errors, elements and the transport\<close>

text \<open>
  Every \<^verbatim>\<open>error\<close> value the file can return. The three \<^verbatim>\<open>fmt.Errorf\<close> messages about a
  missing transition carry the values their format strings print: the current state and
  the available states, and for \<^verbatim>\<open>requestpowerState\<close> the requested state first.
  Errors of the transport and of the endpoint lookup are opaque and keep their text.
\<close>

datatype error =
    SendError string
  | EnumItemsError string
  | MissingEnumItem
  | AtoiSyntax string
  | AtoiRange string
  | NoPowerOffTransition powerState "powerState list"
  | NoPowerCycleTransition powerState "powerState list"
  | NoTransitionTo powerState powerState "powerState list"
  | SystemRefError string
  | MissingManagedSystemRef
  | UnknownResponse

text \<open>\<^verbatim>\<open>dom.Element\<close>: the local name and namespace, the content and the children.\<close>

datatype element =
  Element (Local: string) (Space: string) (Content: string) (Children: "element list")

text \<open>
  What the operations do to the outside, in order: the requests they send, the endpoint
  lookup and the log entries.
\<close>

datatype event =
    SentEnumerate
  | LogStates powerState "powerState list"
  | LogSendingRequest powerState
  | LookupSystemRef string
  | SentInvoke powerState element
  | LogResponse int

text \<open>
  The client handle stands for the collaborators outside this file. Each answer may depend
  on everything that happened before, so it is a function of the history:
  \<^item> \<open>enumerateSend\<close>: \<^verbatim>\<open>Enumerate(..).Send(ctx)\<close> followed by \<^verbatim>\<open>EnumItems()\<close>; the outer
    \<open>Inl\<close> is the error of \<^verbatim>\<open>Send\<close>, the inner one that of \<^verbatim>\<open>EnumItems\<close>;
  \<^item> \<open>getComputerSystemRef\<close>: the lookup of the endpoint reference for a role, an error,
    \<^verbatim>\<open>nil\<close> or an element;
  \<^item> \<open>invokeSend\<close>: \<^verbatim>\<open>Send\<close> of the \<^verbatim>\<open>RequestPowerStateChange\<close> invocation with the
    state and the managed element, followed by \<^verbatim>\<open>GetBody\<close> of the expected output
    element, \<^verbatim>\<open>nil\<close> when it is absent;
  \<^item> the two resource names, constants declared elsewhere in the package.
\<close>

record Client =
  enumerateSend :: "event list \<Rightarrow> string + (string + element list)"
  getComputerSystemRef :: "event list \<Rightarrow> string \<Rightarrow> string + element option"
  invokeSend :: "event list \<Rightarrow> powerState \<Rightarrow> element \<Rightarrow> string + element option"
  resourceCIMAssociatedPowerManagementService :: string
  resourceCIMPowerManagementService :: string

fun invocations :: "event list \<Rightarrow> powerState list" where
  "invocations [] = []"
| "invocations (SentInvoke s e # t) = s # invocations t"
| "invocations (ev # t) = invocations t"

section \<open>strconv.Atoi\<close>

text \<open>
  Base ten, an optional sign, at least one digit, nothing else; a value outside the
  64-bit range of \<^verbatim>\<open>int\<close> is a range error.
\<close>

definition digitValue :: "char \<Rightarrow> int option" where
  "digitValue ch =
     (if ch = CHR ''0'' then Some 0 else if ch = CHR ''1'' then Some 1
      else if ch = CHR ''2'' then Some 2 else if ch = CHR ''3'' then Some 3
      else if ch = CHR ''4'' then Some 4 else if ch = CHR ''5'' then Some 5
      else if ch = CHR ''6'' then Some 6 else if ch = CHR ''7'' then Some 7
      else if ch = CHR ''8'' then Some 8 else if ch = CHR ''9'' then Some 9
      else None)"

fun parseDigits :: "int \<Rightarrow> string \<Rightarrow> int option" where
  "parseDigits n [] = Some n"
| "parseDigits n (ch # s) =
     (case digitValue ch of None \<Rightarrow> None | Some d \<Rightarrow> parseDigits (n * 10 + d) s)"

definition Atoi :: "string \<Rightarrow> error + int" where
  "Atoi s =
     (let neg = (case s of [] \<Rightarrow> False | ch # r \<Rightarrow> ch = CHR ''-'');
          body = (case s of [] \<Rightarrow> [] | ch # r \<Rightarrow> if ch = CHR ''+'' \<or> ch = CHR ''-'' then r else s)
      in if body = [] then Inl (AtoiSyntax s)
         else case parseDigits 0 body of
            None \<Rightarrow> Inl (AtoiSyntax s)
          | Some n \<Rightarrow>
              (let v = (if neg then - n else n)
               in if v < - (2 ^ 63) \<or> 2 ^ 63 \<le> v then Inl (AtoiRange s) else Inr v))"

section \<open>Reading the power status\<close>

fun getPowerManagementElements_loop :: "Client \<Rightarrow> element list \<Rightarrow> error + element list" where
  "getPowerManagementElements_loop c [] = Inl MissingEnumItem"
| "getPowerManagementElements_loop c (e # items) =
     (if Local e = ''CIM_AssociatedPowerManagementService''
         \<and> Space e = resourceCIMAssociatedPowerManagementService c
      then Inr (Children e)
      else getPowerManagementElements_loop c items)"

definition getPowerManagementElements ::
  "Client \<Rightarrow> string + element list \<Rightarrow> error + element list" where
  "getPowerManagementElements c response =
     (case response of
        Inl err \<Rightarrow> Inl (EnumItemsError err)
      | Inr items \<Rightarrow> getPowerManagementElements_loop c items)"

text \<open>The loop of \<^verbatim>\<open>getPowerStatus\<close> over the children, with the status built so far.\<close>

fun getPowerStatus_loop :: "powerStatus \<Rightarrow> element list \<Rightarrow> error + powerStatus" where
  "getPowerStatus_loop status [] = Inr status"
| "getPowerStatus_loop status (e # pmElms) =
     (if Local e = ''PowerState'' then
        (case Atoi (Content e) of
           Inl err \<Rightarrow> Inl err
         | Inr val \<Rightarrow> getPowerStatus_loop (status\<lparr>powerState := val\<rparr>) pmElms)
      else if Local e = ''RequestedPowerState'' then
        (case Atoi (Content e) of
           Inl err \<Rightarrow> Inl err
         | Inr val \<Rightarrow> getPowerStatus_loop (status\<lparr>RequestedpowerState := val\<rparr>) pmElms)
      else if Local e = ''AvailableRequestedPowerStates'' then
        (case Atoi (Content e) of
           Inl err \<Rightarrow> Inl err
         | Inr val \<Rightarrow>
             getPowerStatus_loop
               (status\<lparr>AvailableRequestedpowerStates :=
                  AvailableRequestedpowerStates status @ [val]\<rparr>) pmElms)
      else getPowerStatus_loop status pmElms)"

definition getPowerStatus :: "Client \<Rightarrow> event list \<Rightarrow> (error + powerStatus) \<times> event list" where
  "getPowerStatus c t =
     (let t1 = t @ [SentEnumerate] in
      case enumerateSend c t of
        Inl err \<Rightarrow> (Inl (SendError err), t1)
      | Inr response \<Rightarrow>
          (case getPowerManagementElements c response of
             Inl err \<Rightarrow> (Inl err, t1)
           | Inr pmElms \<Rightarrow>
               (getPowerStatus_loop
                  \<lparr>AvailableRequestedpowerStates = [], powerState = 0,
                   RequestedpowerState = 0\<rparr> pmElms, t1)))"

section \<open>Selecting the next state\<close>

fun containspowerState :: "powerState list \<Rightarrow> powerState \<Rightarrow> bool" where
  "containspowerState [] e = False"
| "containspowerState (a # s) e = (if a = e then True else containspowerState s e)"

fun selectNextState :: "powerState list \<Rightarrow> powerState list \<Rightarrow> powerState" where
  "selectNextState [] availableStates = powerStateUnknown"
| "selectNextState (a # requestedStates) availableStates =
     (if containspowerState availableStates a then a
      else selectNextState requestedStates availableStates)"

definition getPowerOffStates :: "powerState list" where
  "getPowerOffStates =
     [powerStateOffSoftGraceful, powerStateOffSoft, powerStateOffHardGraceful,
      powerStateOffHard]"

definition getPowerCycleStates :: "powerState list" where
  "getPowerCycleStates =
     [powerStatePowerCycleOffSoftGraceful, powerStatePowerCycleOffSoft,
      powerStateMasterBusResetGraceful, powerStatePowerCycleOffHardGraceful,
      powerStatePowerCycleOffHard, powerStateMasterBusReset]"

section \<open>The operations\<close>

definition isPoweredOnGivenStatus :: "event list \<Rightarrow> powerStatus \<Rightarrow> bool \<times> event list" where
  "isPoweredOnGivenStatus t status =
     (let t1 = t @ [LogStates (powerState status) (AvailableRequestedpowerStates status)]
      in if powerState status = powerStateOn then (True, t1) else (False, t1))"

definition isPoweredOn :: "Client \<Rightarrow> event list \<Rightarrow> (error + bool) \<times> event list" where
  "isPoweredOn c t =
     (case getPowerStatus c t of
        (Inl err, t1) \<Rightarrow> (Inl err, t1)
      | (Inr status, t1) \<Rightarrow>
          (case isPoweredOnGivenStatus t1 status of (b, t2) \<Rightarrow> (Inr b, t2)))"

definition makeManagedElement :: "Client \<Rightarrow> event list \<Rightarrow> (error + element) \<times> event list" where
  "makeManagedElement c t =
     (let t1 = t @ [LookupSystemRef ''ManagedSystem''] in
      case getComputerSystemRef c t ''ManagedSystem'' of
        Inl err \<Rightarrow> (Inl (SystemRefError err), t1)
      | Inr None \<Rightarrow> (Inl MissingManagedSystemRef, t1)
      | Inr (Some managedSystemRef) \<Rightarrow>
          (Inr (Element ''ManagedElement'' (resourceCIMPowerManagementService c) []
                  (Children managedSystemRef)), t1))"

definition requestpowerState ::
  "Client \<Rightarrow> event list \<Rightarrow> powerState \<Rightarrow> (error + int) \<times> event list" where
  "requestpowerState c t requestedpowerState =
     (case getPowerStatus c t of
        (Inl err, t1) \<Rightarrow> (Inl err, t1)
      | (Inr status, t1) \<Rightarrow>
          if \<not> containspowerState (AvailableRequestedpowerStates status) requestedpowerState
          then (Inl (NoTransitionTo requestedpowerState (powerState status)
                       (AvailableRequestedpowerStates status)), t1)
          else
            (case makeManagedElement c (t1 @ [LogSendingRequest requestedpowerState]) of
               (Inl err, t2) \<Rightarrow> (Inl err, t2)
             | (Inr managedElement, t2) \<Rightarrow>
                 (let t3 = t2 @ [SentInvoke requestedpowerState managedElement] in
                  case invokeSend c t2 requestedpowerState managedElement of
                    Inl err \<Rightarrow> (Inl (SendError err), t3)
                  | Inr None \<Rightarrow> (Inl UnknownResponse, t3)
                  | Inr (Some body) \<Rightarrow>
                      (case Children body of
                         [child] \<Rightarrow>
                           (case Atoi (Content child) of
                              Inl err \<Rightarrow> (Inl err, t3)
                            | Inr val \<Rightarrow> (Inr val, t3 @ [LogResponse val]))
                       | _ \<Rightarrow> (Inl UnknownResponse, t3)))))"

text \<open>
  The operations return Go's \<^verbatim>\<open>error\<close>: \<open>None\<close> is \<^verbatim>\<open>nil\<close>. \<open>errorOf\<close> drops the
  acknowledged code, as \<^verbatim>\<open>_, err = requestpowerState(..)\<close> does.
\<close>

definition errorOf :: "(error + int) \<times> event list \<Rightarrow> error option \<times> event list" where
  "errorOf r = (case r of (Inl err, t) \<Rightarrow> (Some err, t) | (Inr val, t) \<Rightarrow> (None, t))"

definition powerOn :: "Client \<Rightarrow> event list \<Rightarrow> error option \<times> event list" where
  "powerOn c t =
     (case isPoweredOn c t of
        (Inl err, t1) \<Rightarrow> (Some err, t1)
      | (Inr isOn, t1) \<Rightarrow>
          if isOn then (None, t1) else errorOf (requestpowerState c t1 powerStateOn))"

definition powerOff :: "Client \<Rightarrow> event list \<Rightarrow> error option \<times> event list" where
  "powerOff c t =
     (case getPowerStatus c t of
        (Inl err, t1) \<Rightarrow> (Some err, t1)
      | (Inr status, t1) \<Rightarrow>
          (case isPoweredOnGivenStatus t1 status of
             (True, t2) \<Rightarrow>
               (let request = selectNextState getPowerOffStates
                                (AvailableRequestedpowerStates status)
                in if request \<noteq> powerStateUnknown
                   then errorOf (requestpowerState c t2 request)
                   else (Some (NoPowerOffTransition (powerState status)
                                 (AvailableRequestedpowerStates status)), t2))
           | (False, t2) \<Rightarrow> (None, t2)))"

definition powerCycle :: "Client \<Rightarrow> event list \<Rightarrow> error option \<times> event list" where
  "powerCycle c t =
     (case getPowerStatus c t of
        (Inl err, t1) \<Rightarrow> (Some err, t1)
      | (Inr status, t1) \<Rightarrow>
          (case isPoweredOnGivenStatus t1 status of
             (False, t2) \<Rightarrow> powerOn c t2
           | (True, t2) \<Rightarrow>
               (let request = selectNextState getPowerCycleStates
                                (AvailableRequestedpowerStates status)
                in if request \<ge> 0
                   then errorOf (requestpowerState c t2 request)
                   else (Some (NoPowerCycleTransition (powerState status)
                                 (AvailableRequestedpowerStates status)), t2))))"

section \<open>Example devices\<close>

text \<open>
  Concrete devices for the examples below. \<open>statusReply\<close> is an enumeration answer
  holding one association item with a current state and the available states, as the
  decimal strings a device sends; \<open>exampleClient\<close> answers enumerations as told, resolves
  the managed system and acknowledges every invocation with the return value 0.
\<close>

definition statusElements :: "string \<Rightarrow> string list \<Rightarrow> element list" where
  "statusElements current available =
     Element ''PowerState'' [] current []
     # map (\<lambda>s. Element ''AvailableRequestedPowerStates'' [] s []) available"

definition statusReply :: "string \<Rightarrow> string list \<Rightarrow> string + (string + element list)" where
  "statusReply current available =
     Inr (Inr [Element ''CIM_AssociatedPowerManagementService'' ''apms'' []
                 (statusElements current available)])"

definition exampleClient :: "(event list \<Rightarrow> string + (string + element list)) \<Rightarrow> Client" where
  "exampleClient replies =
     \<lparr>enumerateSend = replies,
      getComputerSystemRef =
        (\<lambda>t role. Inr (Some (Element role [] [] [Element ''Address'' [] ''local'' []]))),
      invokeSend =
        (\<lambda>t s e. Inr (Some (Element ''RequestPowerStateChange_OUTPUT'' ''pms'' []
                               [Element ''ReturnValue'' [] ''0'' []]))),
      resourceCIMAssociatedPowerManagementService = ''apms'',
      resourceCIMPowerManagementService = ''pms''\<rparr>"

section \<open>Basic facts\<close>

lemmas powerState_defs =
  powerStateUnknown_def powerStateOther_def powerStateOn_def powerStateSleepLight_def
  powerStateSleepDeep_def powerStatePowerCycleOffSoft_def powerStateOffHard_def
  powerStateHibernateOffSoft_def powerStateOffSoft_def powerStatePowerCycleOffHard_def
  powerStateMasterBusReset_def powerStateDiagnosticInterruptNMI_def
  powerStateOffSoftGraceful_def powerStateOffHardGraceful_def
  powerStateMasterBusResetGraceful_def powerStatePowerCycleOffSoftGraceful_def
  powerStatePowerCycleOffHardGraceful_def powerStateDiagnosticInterruptInit_def

lemma containspowerState_set: "containspowerState s e \<longleftrightarrow> e \<in> set s"
  by (induction s) auto


lemma selectNextState_disjoint:
  "set requestedStates \<inter> set availableStates = {} \<Longrightarrow>
   selectNextState requestedStates availableStates = powerStateUnknown"
  by (induction requestedStates) (auto simp: containspowerState_set)

lemma invocations_append: "invocations (t @ u) = invocations t @ invocations u"
  by (induction t rule: invocations.induct) auto

lemma getPowerStatus_trace: "snd (getPowerStatus c t) = t @ [SentEnumerate]"
  by (auto simp: getPowerStatus_def Let_def split: sum.splits)

lemma isPoweredOnGivenStatus_eq:
  "isPoweredOnGivenStatus t status =
     (powerState status = powerStateOn,
      t @ [LogStates (powerState status) (AvailableRequestedpowerStates status)])"
  by (simp add: isPoweredOnGivenStatus_def Let_def)

lemma makeManagedElement_invocations:
  "invocations (snd (makeManagedElement c t)) = invocations t"
  by (auto simp: makeManagedElement_def Let_def invocations_append split: sum.splits option.splits)

lemma requestpowerState_invocations:
  "invocations (snd (requestpowerState c t r)) = invocations t
   \<or> invocations (snd (requestpowerState c t r)) = invocations t @ [r]"
proof (cases "getPowerStatus c t")
  case (Pair res t1)
  then have t1: "t1 = t @ [SentEnumerate]"
    using getPowerStatus_trace [of c t] by simp
  show ?thesis
  proof (cases "makeManagedElement c (t1 @ [LogSendingRequest r])")
    case inner: (Pair m t2)
    then have "invocations t2 = invocations t"
      using makeManagedElement_invocations [of c "t1 @ [LogSendingRequest r]"] t1
      by (simp add: invocations_append)
    with Pair inner t1 show ?thesis
      by (auto simp: requestpowerState_def Let_def invocations_append
               split: sum.splits option.splits list.splits)
  qed
qed

lemma errorOf_snd: "snd (errorOf r) = snd r"
  by (auto simp: errorOf_def split: prod.splits sum.splits)

lemma errorOf_fst: "fst (errorOf r) = Some err \<longleftrightarrow> fst r = Inl err"
  by (auto simp: errorOf_def split: prod.splits sum.splits)

lemma powerOn_invocations:
  "invocations (snd (powerOn c t)) = invocations t
   \<or> invocations (snd (powerOn c t)) = invocations t @ [powerStateOn]"
proof (cases "getPowerStatus c t")
  case (Pair res t1)
  then have t1: "t1 = t @ [SentEnumerate]"
    using getPowerStatus_trace [of c t] by simp
  show ?thesis
  proof (cases res)
    case (Inl err)
    with Pair t1 show ?thesis
      by (simp add: powerOn_def isPoweredOn_def invocations_append)
  next
    case (Inr status)
    let ?t2 = "t1 @ [LogStates (powerState status) (AvailableRequestedpowerStates status)]"
    have "invocations ?t2 = invocations t"
      using t1 by (simp add: invocations_append)
    then show ?thesis
      using Pair Inr requestpowerState_invocations [of c ?t2 powerStateOn]
      by (auto simp: powerOn_def isPoweredOn_def isPoweredOnGivenStatus_eq errorOf_snd)
  qed
qed

lemma getPowerStatus_loop_skip:
  "\<forall>e \<in> set pmElms. Local e \<notin> {''PowerState'', ''RequestedPowerState'',
      ''AvailableRequestedPowerStates''} \<Longrightarrow>
   getPowerStatus_loop status pmElms = Inr status"
  by (induction pmElms) auto

lemma getPowerStatus_loop_available:
  "getPowerStatus_loop status pmElms = Inr status' \<Longrightarrow>
   map Inr (AvailableRequestedpowerStates status') =
     map Inr (AvailableRequestedpowerStates status)
     @ map (\<lambda>e. Atoi (Content e))
         (filter (\<lambda>e. Local e = ''AvailableRequestedPowerStates'') pmElms)"
proof (induction pmElms arbitrary: status)
  case Nil
  then show ?case by simp
next
  case (Cons e pmElms)
  show ?case
  proof (cases "Atoi (Content e)")
    case (Inl err)
    with Cons.prems Cons.IH [of status] show ?thesis
      by (simp split: if_splits)
  next
    case (Inr val)
    with Cons.prems
      Cons.IH [of status]
      Cons.IH [of "status\<lparr>powerState := val\<rparr>"]
      Cons.IH [of "status\<lparr>RequestedpowerState := val\<rparr>"]
      Cons.IH [of "status\<lparr>AvailableRequestedpowerStates :=
                     AvailableRequestedpowerStates status @ [val]\<rparr>"]
    show ?thesis
      by (simp split: if_splits)
  qed
qed

lemma Atoi_error: "Atoi s = Inl err \<Longrightarrow> err = AtoiSyntax s \<or> err = AtoiRange s"
  by (auto simp: Atoi_def Let_def split: option.splits if_splits)

lemma getPowerStatus_loop_error:
  "getPowerStatus_loop status pmElms = Inl err \<Longrightarrow> \<exists>s. err = AtoiSyntax s \<or> err = AtoiRange s"
proof (induction pmElms arbitrary: status)
  case Nil
  then show ?case by simp
next
  case (Cons e pmElms)
  then show ?case
    by (auto split: if_splits sum.splits dest: Atoi_error)
qed

lemma getPowerManagementElements_loop_error:
  "getPowerManagementElements_loop c items = Inl err \<Longrightarrow> err = MissingEnumItem"
  by (induction items) (auto split: if_splits)

lemma getPowerStatus_not_cycle_error:
  "fst (getPowerStatus c t) \<noteq> Inl (NoPowerCycleTransition s a)"
  by (auto simp: getPowerStatus_def getPowerManagementElements_def Let_def
      split: sum.splits
      dest: getPowerStatus_loop_error getPowerManagementElements_loop_error)

lemma requestpowerState_not_cycle_error:
  "fst (requestpowerState c t r) \<noteq> Inl (NoPowerCycleTransition s a)"
proof (cases "getPowerStatus c t")
  case (Pair res t1)
  with getPowerStatus_not_cycle_error [of c t s a]
  show ?thesis
    by (auto simp: requestpowerState_def makeManagedElement_def Let_def
        split: sum.splits option.splits list.splits dest: Atoi_error)
qed

lemma powerOn_not_cycle_error:
  "fst (powerOn c t) \<noteq> Some (NoPowerCycleTransition s a)"
proof (cases "getPowerStatus c t")
  case (Pair res t1)
  with getPowerStatus_not_cycle_error [of c t s a]
  show ?thesis
    using requestpowerState_not_cycle_error [of c _ powerStateOn s a]
    by (auto simp: powerOn_def isPoweredOn_def isPoweredOnGivenStatus_eq errorOf_fst
        split: sum.splits)
qed

lemma selectNextState_cycle_nonneg: "0 \<le> selectNextState getPowerCycleStates availableStates"
  by (simp add: getPowerCycleStates_def powerState_defs)

lemmas example_defs =
  exampleClient_def statusReply_def statusElements_def getPowerStatus_def
  getPowerManagementElements_def Atoi_def digitValue_def Let_def

section \<open>Classification\<close>

text \<open>
  C7. The classification is true exactly when the current state of the status is On,
  code 2; every other code, named or not, classifies as not on.
\<close>

theorem isPoweredOnGivenStatus_iff:
  "fst (isPoweredOnGivenStatus t status) \<longleftrightarrow> powerState status = 2"
  by (simp add: isPoweredOnGivenStatus_def Let_def powerStateOn_def)

section \<open>Selection\<close>




text \<open>
  C4. The selection returns the first element of the preference list, in its order, that
  occurs in the available list: when the preference list splits into a part with no
  available element, then \<open>a\<close>, which is available, the result is \<open>a\<close>. With the
  preferences OffSoftGraceful, OffSoft, OffHardGraceful, OffHard (the power-off table)
  and OffHard, SleepLight available, the result is OffHard.
\<close>

theorem selectNextState_first:
  "(requestedStates = xs @ a # ys \<and> set xs \<inter> set availableStates = {}
      \<and> a \<in> set availableStates
      \<longrightarrow> selectNextState requestedStates availableStates = a)
   \<and> selectNextState
       [powerStateOffSoftGraceful, powerStateOffSoft, powerStateOffHardGraceful,
        powerStateOffHard] [powerStateOffHard, powerStateSleepLight] = powerStateOffHard
   \<and> selectNextState getPowerOffStates [powerStateOffHard, powerStateSleepLight]
       = powerStateOffHard"
proof -
  have "selectNextState (xs @ a # ys) availableStates = a"
    if "set xs \<inter> set availableStates = {}" "a \<in> set availableStates"
    using that by (induction xs) (auto simp: containspowerState_set)
  then show ?thesis
    by (auto simp: getPowerOffStates_def powerState_defs)
qed

theorem selectNextState_first_witness:
  "getPowerOffStates =
     [powerStateOffSoftGraceful, powerStateOffSoft, powerStateOffHardGraceful]
     @ powerStateOffHard # []
   \<and> set [powerStateOffSoftGraceful, powerStateOffSoft, powerStateOffHardGraceful]
       \<inter> set [powerStateOffHard, powerStateSleepLight, powerStateOffHard] = {}
   \<and> powerStateOffHard \<in> set [powerStateOffHard, powerStateSleepLight, powerStateOffHard]
   \<and> selectNextState getPowerOffStates
        [powerStateOffHard, powerStateSleepLight, powerStateOffHard] = powerStateOffHard"
  using selectNextState_first [of getPowerOffStates
      "[powerStateOffSoftGraceful, powerStateOffSoft, powerStateOffHardGraceful]"
      powerStateOffHard "[]" "[powerStateOffHard, powerStateSleepLight, powerStateOffHard]"]
  by (simp add: getPowerOffStates_def powerState_defs)

section \<open>The status reader\<close>

text \<open>
  C10. When the children of the association element carry none of the three tag names
  (children with other names are skipped), the read succeeds with current state 0
  (unknown), requested state 0 and no available states, and no error is raised for the
  missing fields. Whenever the read succeeds, the available states are the parsed
  contents of the \<^verbatim>\<open>AvailableRequestedPowerStates\<close> children in the order received, each
  occurrence kept.
\<close>

theorem getPowerStatus_missing_fields:
  "(enumerateSend c t = Inr response \<and> getPowerManagementElements c response = Inr pmElms
      \<and> (\<forall>e \<in> set pmElms. Local e \<notin> {''PowerState'', ''RequestedPowerState'',
            ''AvailableRequestedPowerStates''})
      \<longrightarrow> getPowerStatus c t =
            (Inr \<lparr>AvailableRequestedpowerStates = [], powerState = powerStateUnknown,
                  RequestedpowerState = 0\<rparr>, t @ [SentEnumerate]))
   \<and> (enumerateSend c t = Inr response \<and> getPowerManagementElements c response = Inr pmElms
      \<and> getPowerStatus c t = (Inr status, t1)
      \<longrightarrow> map Inr (AvailableRequestedpowerStates status) =
            map (\<lambda>e. Atoi (Content e))
              (filter (\<lambda>e. Local e = ''AvailableRequestedPowerStates'') pmElms))"
proof (intro conjI impI)
  assume "enumerateSend c t = Inr response \<and> getPowerManagementElements c response = Inr pmElms
      \<and> (\<forall>e \<in> set pmElms. Local e \<notin> {''PowerState'', ''RequestedPowerState'',
            ''AvailableRequestedPowerStates''})"
  then show "getPowerStatus c t =
            (Inr \<lparr>AvailableRequestedpowerStates = [], powerState = powerStateUnknown,
                  RequestedpowerState = 0\<rparr>, t @ [SentEnumerate])"
    using getPowerStatus_loop_skip [of pmElms]
    by (auto simp: getPowerStatus_def Let_def powerStateUnknown_def)
next
  assume a: "enumerateSend c t = Inr response \<and> getPowerManagementElements c response = Inr pmElms
      \<and> getPowerStatus c t = (Inr status, t1)"
  then have "getPowerStatus_loop
      \<lparr>AvailableRequestedpowerStates = [], powerState = 0, RequestedpowerState = 0\<rparr> pmElms
      = Inr status"
    by (auto simp: getPowerStatus_def Let_def)
  from getPowerStatus_loop_available [OF this]
  show "map Inr (AvailableRequestedpowerStates status) =
            map (\<lambda>e. Atoi (Content e))
              (filter (\<lambda>e. Local e = ''AvailableRequestedPowerStates'') pmElms)"
    by simp
qed

theorem getPowerStatus_missing_fields_witness:
  "enumerateSend
     (exampleClient (\<lambda>t. Inr (Inr [Element ''CIM_AssociatedPowerManagementService'' ''apms'' []
                                     [Element ''ElementName'' [] ''power'' []]]))) []
   = Inr (Inr [Element ''CIM_AssociatedPowerManagementService'' ''apms'' []
                 [Element ''ElementName'' [] ''power'' []]])
   \<and> getPowerStatus
       (exampleClient (\<lambda>t. Inr (Inr [Element ''CIM_AssociatedPowerManagementService'' ''apms'' []
                                       [Element ''ElementName'' [] ''power'' []]]))) []
     = (Inr \<lparr>AvailableRequestedpowerStates = [], powerState = 0, RequestedpowerState = 0\<rparr>,
        [SentEnumerate])
   \<and> getPowerStatus (exampleClient (\<lambda>t. statusReply ''2'' [''6'', ''3'', ''6''])) []
     = (Inr \<lparr>AvailableRequestedpowerStates = [6, 3, 6], powerState = 2,
             RequestedpowerState = 0\<rparr>, [SentEnumerate])
   \<and> map Inr [6, 3, 6] = map (\<lambda>e. Atoi (Content e))
        (filter (\<lambda>e. Local e = ''AvailableRequestedPowerStates'')
           (statusElements ''2'' [''6'', ''3'', ''6'']))"
proof -
  let ?items = "[Element ''CIM_AssociatedPowerManagementService'' ''apms'' []
                   [Element ''ElementName'' [] ''power'' []]]"
  let ?c = "exampleClient (\<lambda>t. Inr (Inr ?items))"
  let ?d = "exampleClient (\<lambda>t. statusReply ''2'' [''6'', ''3'', ''6''])"
  let ?st = "\<lparr>AvailableRequestedpowerStates = [6, 3, 6], powerState = 2,
              RequestedpowerState = 0\<rparr>"
  have c1: "enumerateSend ?c [] = Inr (Inr ?items)"
    by (simp add: exampleClient_def)
  have c2: "getPowerManagementElements ?c (Inr ?items) = Inr [Element ''ElementName'' [] ''power'' []]"
    by (simp add: getPowerManagementElements_def exampleClient_def)
  have c3: "\<forall>e \<in> set [Element ''ElementName'' [] ''power'' []].
              Local e \<notin> {''PowerState'', ''RequestedPowerState'', ''AvailableRequestedPowerStates''}"
    by simp
  have d1: "enumerateSend ?d [] = statusReply ''2'' [''6'', ''3'', ''6'']"
    by (simp add: exampleClient_def)
  have d2: "getPowerManagementElements ?d
              (Inr [Element ''CIM_AssociatedPowerManagementService'' ''apms'' []
                      (statusElements ''2'' [''6'', ''3'', ''6''])])
            = Inr (statusElements ''2'' [''6'', ''3'', ''6''])"
    by (simp add: getPowerManagementElements_def exampleClient_def)
  have d3: "getPowerStatus ?d [] = (Inr ?st, [SentEnumerate])"
    by (simp add: example_defs)
  show ?thesis
    using c1 d3
      getPowerStatus_missing_fields [of ?c "[]" "Inr ?items"
        "[Element ''ElementName'' [] ''power'' []]"
        "\<lparr>AvailableRequestedpowerStates = [], powerState = 0, RequestedpowerState = 0\<rparr>"
        "[SentEnumerate]"]
      getPowerStatus_missing_fields [of ?d "[]"
        "Inr [Element ''CIM_AssociatedPowerManagementService'' ''apms'' []
                (statusElements ''2'' [''6'', ''3'', ''6''])]"
        "statusElements ''2'' [''6'', ''3'', ''6'']" ?st "[SentEnumerate]"]
      c2 c3 d1 d2
    by (simp add: statusReply_def powerStateUnknown_def)
qed

section \<open>The transition primitive\<close>

text \<open>
  C5. \<^verbatim>\<open>requestpowerState\<close> reads the status again; when the requested state is not
  among the available states of that read, it fails with the error that names the
  requested state, the current state and the available states, and it sends no
  invocation. This holds after any history, also one in which the caller's own read
  offered the state.
\<close>

theorem requestpowerState_revalidates:
  "getPowerStatus c t = (Inr status, t1) \<Longrightarrow>
   requestedpowerState \<notin> set (AvailableRequestedpowerStates status) \<Longrightarrow>
   requestpowerState c t requestedpowerState =
     (Inl (NoTransitionTo requestedpowerState (powerState status)
             (AvailableRequestedpowerStates status)), t1)
   \<and> invocations t1 = invocations t"
  using getPowerStatus_trace [of c t]
  by (simp add: requestpowerState_def containspowerState_set invocations_append)

theorem requestpowerState_revalidates_witness:
  "getPowerStatus
     (exampleClient (\<lambda>t. if t = [] then statusReply ''2'' [''6''] else statusReply ''2'' [''3'']))
     [SentEnumerate, LogStates 2 [6]]
   = (Inr \<lparr>AvailableRequestedpowerStates = [3], powerState = 2, RequestedpowerState = 0\<rparr>,
      [SentEnumerate, LogStates 2 [6], SentEnumerate])
   \<and> powerStateOffHard \<notin> set [3]
   \<and> requestpowerState
       (exampleClient (\<lambda>t. if t = [] then statusReply ''2'' [''6''] else statusReply ''2'' [''3'']))
       [SentEnumerate, LogStates 2 [6]] powerStateOffHard
     = (Inl (NoTransitionTo powerStateOffHard 2 [3]),
        [SentEnumerate, LogStates 2 [6], SentEnumerate])
   \<and> powerOff
       (exampleClient (\<lambda>t. if t = [] then statusReply ''2'' [''6''] else statusReply ''2'' [''3'']))
       []
     = (Some (NoTransitionTo powerStateOffHard 2 [3]),
        [SentEnumerate, LogStates 2 [6], SentEnumerate])"
proof -
  let ?c = "exampleClient (\<lambda>t. if t = [] then statusReply ''2'' [''6''] else statusReply ''2'' [''3''])"
  let ?st = "\<lparr>AvailableRequestedpowerStates = [3], powerState = 2, RequestedpowerState = 0\<rparr>"
  have first: "getPowerStatus ?c []
      = (Inr \<lparr>AvailableRequestedpowerStates = [6], powerState = 2, RequestedpowerState = 0\<rparr>,
         [SentEnumerate])"
    by (simp add: example_defs)
  have second: "getPowerStatus ?c [SentEnumerate, LogStates 2 [6]]
      = (Inr ?st, [SentEnumerate, LogStates 2 [6], SentEnumerate])"
    by (simp add: example_defs)
  have absent: "powerStateOffHard \<notin> set (AvailableRequestedpowerStates ?st)"
    by (simp add: powerStateOffHard_def)
  have req: "requestpowerState ?c [SentEnumerate, LogStates 2 [6]] powerStateOffHard
      = (Inl (NoTransitionTo powerStateOffHard 2 [3]),
         [SentEnumerate, LogStates 2 [6], SentEnumerate])"
    using requestpowerState_revalidates [OF second absent] by simp
  have off: "powerOff ?c []
      = (Some (NoTransitionTo powerStateOffHard 2 [3]),
         [SentEnumerate, LogStates 2 [6], SentEnumerate])"
    using first req
    by (simp add: powerOff_def isPoweredOnGivenStatus_eq getPowerOffStates_def errorOf_def
          powerState_defs)
  show ?thesis
    using second absent req off by simp
qed

section \<open>Power on, power off, power cycle\<close>



text \<open>
  C6. When the device is on and no state of the power-off table is available (for
  instance when nothing is available), \<^verbatim>\<open>powerOff\<close> fails with its own error, which
  carries the current state and the whole list of available states, and sends no
  invocation.
\<close>

theorem powerOff_no_transition:
  "getPowerStatus c t = (Inr status, t1) \<Longrightarrow>
   powerState status = powerStateOn \<Longrightarrow>
   set getPowerOffStates \<inter> set (AvailableRequestedpowerStates status) = {} \<Longrightarrow>
   powerOff c t =
     (Some (NoPowerOffTransition powerStateOn (AvailableRequestedpowerStates status)),
      t1 @ [LogStates powerStateOn (AvailableRequestedpowerStates status)])
   \<and> invocations (snd (powerOff c t)) = invocations t"
  using getPowerStatus_trace [of c t]
  by (simp add: powerOff_def isPoweredOnGivenStatus_eq selectNextState_disjoint
        invocations_append)

theorem powerOff_no_transition_witness:
  "getPowerStatus (exampleClient (\<lambda>t. statusReply ''2'' [])) []
   = (Inr \<lparr>AvailableRequestedpowerStates = [], powerState = 2, RequestedpowerState = 0\<rparr>,
      [SentEnumerate])
   \<and> (2::powerState) = powerStateOn
   \<and> set getPowerOffStates \<inter> set ([]::powerState list) = {}
   \<and> powerOff (exampleClient (\<lambda>t. statusReply ''2'' [])) []
     = (Some (NoPowerOffTransition powerStateOn []), [SentEnumerate, LogStates powerStateOn []])"
proof -
  let ?c = "exampleClient (\<lambda>t. statusReply ''2'' [])"
  let ?st = "\<lparr>AvailableRequestedpowerStates = [], powerState = 2, RequestedpowerState = 0\<rparr>"
  have rd: "getPowerStatus ?c [] = (Inr ?st, [SentEnumerate])"
    by (simp add: example_defs)
  have on: "powerState ?st = powerStateOn"
    by (simp add: powerStateOn_def)
  have dis: "set getPowerOffStates \<inter> set (AvailableRequestedpowerStates ?st) = {}"
    by simp
  show ?thesis
    using rd on powerOff_no_transition [OF rd on dis] by simp
qed

text \<open>
  C9. When the status read shows the device not on, \<^verbatim>\<open>powerOff\<close> returns success and
  sends no invocation, and \<^verbatim>\<open>powerCycle\<close> is \<^verbatim>\<open>powerOn\<close> run after that read: the only
  invocation it can send asks for On, which is no state of the power-cycle table.
\<close>

theorem not_on_no_off_request:
  "getPowerStatus c t = (Inr status, t1) \<Longrightarrow>
   powerState status \<noteq> powerStateOn \<Longrightarrow>
   powerOff c t = (None, t1 @ [LogStates (powerState status) (AvailableRequestedpowerStates status)])
   \<and> invocations (snd (powerOff c t)) = invocations t
   \<and> powerCycle c t =
       powerOn c (t1 @ [LogStates (powerState status) (AvailableRequestedpowerStates status)])
   \<and> (invocations (snd (powerCycle c t)) = invocations t
       \<or> invocations (snd (powerCycle c t)) = invocations t @ [powerStateOn])
   \<and> powerStateOn \<notin> set getPowerCycleStates"
proof -
  assume st: "getPowerStatus c t = (Inr status, t1)" and off: "powerState status \<noteq> powerStateOn"
  let ?t2 = "t1 @ [LogStates (powerState status) (AvailableRequestedpowerStates status)]"
  have t1: "t1 = t @ [SentEnumerate]"
    using st getPowerStatus_trace [of c t] by simp
  have inv: "invocations ?t2 = invocations t"
    using t1 by (simp add: invocations_append)
  have a: "powerOff c t = (None, ?t2)"
    using st off by (simp add: powerOff_def isPoweredOnGivenStatus_eq)
  have b: "powerCycle c t = powerOn c ?t2"
    using st off by (simp add: powerCycle_def isPoweredOnGivenStatus_eq)
  have c: "powerStateOn \<notin> set getPowerCycleStates"
    by (simp add: getPowerCycleStates_def powerState_defs)
  show ?thesis
    using a b c inv powerOn_invocations [of c ?t2] by simp
qed

theorem not_on_no_off_request_witness:
  "getPowerStatus (exampleClient (\<lambda>t. statusReply ''6'' [''2''])) []
   = (Inr \<lparr>AvailableRequestedpowerStates = [2], powerState = 6, RequestedpowerState = 0\<rparr>,
      [SentEnumerate])
   \<and> (6::powerState) \<noteq> powerStateOn
   \<and> powerOff (exampleClient (\<lambda>t. statusReply ''6'' [''2''])) []
     = (None, [SentEnumerate, LogStates 6 [2]])
   \<and> powerCycle (exampleClient (\<lambda>t. statusReply ''6'' [''2''])) []
     = powerOn (exampleClient (\<lambda>t. statusReply ''6'' [''2''])) [SentEnumerate, LogStates 6 [2]]"
proof -
  let ?d = "exampleClient (\<lambda>t. statusReply ''6'' [''2''])"
  let ?su = "\<lparr>AvailableRequestedpowerStates = [2], powerState = 6, RequestedpowerState = 0\<rparr>"
  have rd: "getPowerStatus ?d [] = (Inr ?su, [SentEnumerate])"
    by (simp add: example_defs)
  have off: "powerState ?su \<noteq> powerStateOn"
    by (simp add: powerStateOn_def)
  show ?thesis
    using rd off not_on_no_off_request [OF rd off] by simp
qed

text \<open>
  C2. The sentinel unknown is code 0 and the selection over the power-cycle table is
  never negative, so the test \<^verbatim>\<open>request >= 0\<close> always succeeds: \<^verbatim>\<open>powerCycle\<close> never
  returns its own error, and when the device is on with no state of the table available
  it calls the transition primitive with the sentinel.
\<close>

theorem powerCycle_error_unreachable:
  "powerStateUnknown = 0
   \<and> 0 \<le> selectNextState getPowerCycleStates availableStates
   \<and> fst (powerCycle c t) \<noteq> Some (NoPowerCycleTransition s a)
   \<and> (getPowerStatus c t = (Inr status, t1) \<and> powerState status = powerStateOn
        \<and> set getPowerCycleStates \<inter> set (AvailableRequestedpowerStates status) = {}
      \<longrightarrow> powerCycle c t =
            errorOf (requestpowerState c
              (t1 @ [LogStates powerStateOn (AvailableRequestedpowerStates status)])
              powerStateUnknown))"
proof (intro conjI impI)
  show "powerStateUnknown = 0" by (simp add: powerStateUnknown_def)
  show "0 \<le> selectNextState getPowerCycleStates availableStates"
    by (rule selectNextState_cycle_nonneg)
  show "fst (powerCycle c t) \<noteq> Some (NoPowerCycleTransition s a)"
  proof (cases "getPowerStatus c t")
    case (Pair res t1)
    with getPowerStatus_not_cycle_error [of c t s a]
    show ?thesis
      using requestpowerState_not_cycle_error [of c _ _ s a]
        powerOn_not_cycle_error [of c _ s a] selectNextState_cycle_nonneg
      by (auto simp: powerCycle_def isPoweredOnGivenStatus_eq errorOf_fst Let_def
          split: sum.splits bool.splits if_splits)
  qed
next
  assume "getPowerStatus c t = (Inr status, t1) \<and> powerState status = powerStateOn
        \<and> set getPowerCycleStates \<inter> set (AvailableRequestedpowerStates status) = {}"
  then show "powerCycle c t =
            errorOf (requestpowerState c
              (t1 @ [LogStates powerStateOn (AvailableRequestedpowerStates status)])
              powerStateUnknown)"
    by (simp add: powerCycle_def isPoweredOnGivenStatus_eq selectNextState_disjoint
        powerStateUnknown_def)
qed

theorem powerCycle_error_unreachable_witness:
  "getPowerStatus (exampleClient (\<lambda>t. statusReply ''2'' [])) []
   = (Inr \<lparr>AvailableRequestedpowerStates = [], powerState = 2, RequestedpowerState = 0\<rparr>,
      [SentEnumerate])
   \<and> (2::powerState) = powerStateOn
   \<and> set getPowerCycleStates \<inter> set ([]::powerState list) = {}
   \<and> powerCycle (exampleClient (\<lambda>t. statusReply ''2'' [])) []
     = errorOf (requestpowerState (exampleClient (\<lambda>t. statusReply ''2'' []))
         [SentEnumerate, LogStates 2 []] 0)
   \<and> powerCycle (exampleClient (\<lambda>t. statusReply ''2'' [])) []
     = (Some (NoTransitionTo 0 2 []), [SentEnumerate, LogStates 2 [], SentEnumerate])"
proof -
  let ?c = "exampleClient (\<lambda>t. statusReply ''2'' [])"
  let ?st = "\<lparr>AvailableRequestedpowerStates = [], powerState = 2, RequestedpowerState = 0\<rparr>"
  have rd: "getPowerStatus ?c t = (Inr ?st, t @ [SentEnumerate])" for t
    by (simp add: example_defs)
  have on: "powerState ?st = powerStateOn"
    by (simp add: powerStateOn_def)
  have req: "requestpowerState ?c [SentEnumerate, LogStates 2 []] 0
     = (Inl (NoTransitionTo 0 2 []), [SentEnumerate, LogStates 2 [], SentEnumerate])"
    by (simp add: requestpowerState_def rd)
  show ?thesis
    using rd [of "[]"] on req
      powerCycle_error_unreachable [of "[]" ?c "[]" 0 "[]" ?st "[SentEnumerate]"]
    by (simp add: errorOf_def powerStateOn_def powerStateUnknown_def)
qed

text \<open>
  C1. On a device that is on and advertises code 0 as its only available state, no state
  of the power-cycle table is available, yet \<^verbatim>\<open>powerCycle\<close> returns success after sending
  an invocation that asks for state 0.
\<close>

theorem powerCycle_requests_unknown:
  "set getPowerCycleStates \<inter> set [0] = {}
   \<and> getPowerStatus (exampleClient (\<lambda>t. statusReply ''2'' [''0''])) []
     = (Inr \<lparr>AvailableRequestedpowerStates = [0], powerState = powerStateOn,
             RequestedpowerState = 0\<rparr>, [SentEnumerate])
   \<and> powerCycle (exampleClient (\<lambda>t. statusReply ''2'' [''0''])) []
     = (None,
        [SentEnumerate, LogStates 2 [0], SentEnumerate, LogSendingRequest 0,
         LookupSystemRef ''ManagedSystem'',
         SentInvoke 0 (Element ''ManagedElement'' ''pms'' []
                         [Element ''Address'' [] ''local'' []]),
         LogResponse 0])
   \<and> invocations (snd (powerCycle (exampleClient (\<lambda>t. statusReply ''2'' [''0''])) []))
     = [powerStateUnknown]"
proof -
  let ?c = "exampleClient (\<lambda>t. statusReply ''2'' [''0''])"
  have rd: "getPowerStatus ?c t
     = (Inr \<lparr>AvailableRequestedpowerStates = [0], powerState = powerStateOn,
             RequestedpowerState = 0\<rparr>, t @ [SentEnumerate])" for t
    by (simp add: example_defs powerStateOn_def)
  have sel: "selectNextState getPowerCycleStates [0] = 0"
    by (simp add: getPowerCycleStates_def powerState_defs)
  have mk: "makeManagedElement ?c t
     = (Inr (Element ''ManagedElement'' ''pms'' [] [Element ''Address'' [] ''local'' []]),
        t @ [LookupSystemRef ''ManagedSystem''])" for t
    by (simp add: makeManagedElement_def exampleClient_def)
  have inv: "invokeSend ?c t r e
     = Inr (Some (Element ''RequestPowerStateChange_OUTPUT'' ''pms'' []
                    [Element ''ReturnValue'' [] ''0'' []]))" for t r e
    by (simp add: exampleClient_def)
  have req: "requestpowerState ?c [SentEnumerate, LogStates 2 [0]] 0
     = (Inr 0,
        [SentEnumerate, LogStates 2 [0], SentEnumerate, LogSendingRequest 0,
         LookupSystemRef ''ManagedSystem'',
         SentInvoke 0 (Element ''ManagedElement'' ''pms'' []
                         [Element ''Address'' [] ''local'' []]),
         LogResponse 0])"
    by (simp add: requestpowerState_def rd mk inv Atoi_def digitValue_def)
  have cyc: "powerCycle ?c []
     = (None,
        [SentEnumerate, LogStates 2 [0], SentEnumerate, LogSendingRequest 0,
         LookupSystemRef ''ManagedSystem'',
         SentInvoke 0 (Element ''ManagedElement'' ''pms'' []
                         [Element ''Address'' [] ''local'' []]),
         LogResponse 0])"
    by (simp add: powerCycle_def rd sel isPoweredOnGivenStatus_eq req errorOf_def
        powerStateOn_def)
  show ?thesis
    using rd [of "[]"] cyc
    by (simp add: getPowerCycleStates_def powerState_defs)
qed

end
